theory Spec2Isabelle
  imports Main
begin

section \<open>Data model\<close>

text \<open>
  Durations and clock readings (\<open>performance.now()\<close>, \<open>interval\<close>, \<open>retryDelay\<close>,
  \<open>responseTimeThreshold\<close>) are JavaScript numbers holding milliseconds. They are
  modelled as integers: the only operations the hook applies to them are subtraction,
  the comparison \<open>>\<close> and printing into a template string. \<open>retryAttempts\<close> is an
  integer that may be negative; \<open>currentRetry\<close> counts up from 0.
\<close>

type_synonym ms = int

text \<open>Headers and bodies are only copied around by the hook; they are opaque here.\<close>

type_synonym json = string

datatype axios_config =
  AxiosConfig (config_url: "string option") (config_method: "string option")
    (config_headers: "json option")

datatype axios_response =
  AxiosResponse (resp_status: int) (resp_statusText: string) (resp_headers: json)
    (resp_data: json) (resp_config: axios_config)

text \<open>
  A value caught by \<open>catch (error)\<close>: whether it is an \<open>instanceof Error\<close>, its
  \<open>message\<close>, and the \<open>config\<close> and \<open>response\<close> properties an axios error carries.
\<close>

datatype thrown =
  Thrown (isError: bool) (message: string) (err_config: "axios_config option")
    (err_response: "axios_response option")

text \<open>\<open>new Error(msg)\<close>: an Error object with no \<open>config\<close> and no \<open>response\<close>.\<close>

definition new_Error :: "string \<Rightarrow> thrown" where
  "new_Error msg = Thrown True msg None None"

datatype health_state = loading | healthy | unhealthy

datatype request_info =
  RequestInfo (req_url: string) (req_method: string) (req_headers: "json option")

datatype response_info =
  ResponseInfo (res_status: int) (res_statusText: string) (res_headers: json) (res_data: json)

datatype request_details =
  RequestDetails (request: request_info) (response: "response_info option")

text \<open>
  \<open>IHealthStatus\<close>, as the types module declares it. An optional field is an
  \<open>option\<close>, \<open>None\<close> standing for \<open>undefined\<close> (for \<open>lastChecked\<close>, for \<open>null\<close>). A \<open>Date\<close> is
  identified with the clock reading at which it was constructed.
\<close>

record IHealthStatus =
  status :: health_state
  lastChecked :: "ms option"
  error :: "string option"
  rawError :: "thrown option"
  responseTime :: "ms option"
  retryCount :: "nat option"
  requestDetails :: "request_details option"

text \<open>The component's state extends the hook's with two display flags.\<close>

record HealthStatus = IHealthStatus +
  expanded :: bool
  showDevTools :: "bool option"

text \<open>
  A callback prop is a function object. What the options record keeps of it is
  whether it was supplied (\<open>onHealthy?.(...)\<close>) and its identity (the dependency
  arrays compare it with \<open>Object.is\<close>): an identity token. What a call of it does,
  return or throw, is given separately, by \<open>callbacks\<close> below.
\<close>

type_synonym callback = nat

text \<open>
  \<open>HealthCheckOptions\<close>, as the types module declares it; the hook's destructuring
  pattern supplies the defaults.
\<close>

record HealthCheckOptions =
  url :: string
  interval :: ms
  onHealthy :: "callback option"
  onUnhealthy :: "callback option"
  enabled :: bool
  retryAttempts :: int
  retryDelay :: ms
  responseTimeThreshold :: ms

text \<open>The defaults of the destructuring pattern, for a given \<open>url\<close>.\<close>

definition default_options :: "string \<Rightarrow> HealthCheckOptions" where
  "default_options u =
     \<lparr>url = u, interval = 30000, onHealthy = None, onUnhealthy = None, enabled = True,
      retryAttempts = 3, retryDelay = 5000, responseTimeThreshold = 1000\<rparr>"

text \<open>The initial state of \<open>useState\<close> in the hook and in the component.\<close>

definition initial_health :: IHealthStatus where
  "initial_health =
     \<lparr>status = loading, lastChecked = None, error = None, rawError = None,
      responseTime = None, retryCount = None, requestDetails = None\<rparr>"

definition initial_component_health :: HealthStatus where
  "initial_component_health =
     \<lparr>status = loading, lastChecked = None, error = None, rawError = None,
      responseTime = None, retryCount = None, requestDetails = None,
      expanded = False, showDevTools = Some False\<rparr>"

section \<open>Strings\<close>

text \<open>Template strings print a number in decimal.\<close>

definition digit_char :: "nat \<Rightarrow> char" where
  "digit_char d = char_of (48 + d)"

fun digits :: "nat \<Rightarrow> string" where
  "digits n = (if n < 10 then [digit_char n] else digits (n div 10) @ [digit_char (n mod 10)])"

definition Number_toString :: "int \<Rightarrow> string" where
  "Number_toString n = (if n < 0 then CHR ''-'' # digits (nat (- n)) else digits (nat n))"

text \<open>\<open>String.prototype.toUpperCase\<close>, on the ASCII letters.\<close>

definition toUpperCase :: "string \<Rightarrow> string" where
  "toUpperCase s =
     map (\<lambda>c. let n = (of_char c :: nat) in
                if 97 \<le> n \<and> n \<le> 122 then char_of (n - 32) else c) s"

text \<open>\<open>a || b\<close> on an optional string: \<open>undefined\<close> and the empty string are falsy.\<close>

definition or_string :: "string option \<Rightarrow> string \<Rightarrow> string" where
  "or_string a b = (case a of None \<Rightarrow> b | Some s \<Rightarrow> if s = [] then b else s)"

section \<open>One probe cycle\<close>

text \<open>
  What a cycle does besides updating the state: requests, waits between retries,
  publications through \<open>setHealth\<close>, and callback invocations.
\<close>

datatype action =
  Get string
  | Sleep ms
  | SetHealth
  | OnHealthy callback axios_response
  | OnUnhealthy callback thrown

text \<open>\<open>cb?.(arg)\<close>: the call happens only when the callback was supplied.\<close>

definition optional_call :: "callback option \<Rightarrow> (callback \<Rightarrow> action) \<Rightarrow> action list" where
  "optional_call cb f = (case cb of None \<Rightarrow> [] | Some c \<Rightarrow> [f c])"

text \<open>How a request settles: the promise of \<open>axios.get\<close> resolves or rejects.\<close>

datatype reply = Resolves axios_response | Rejects thrown

text \<open>
  The \<open>try\<close> block of \<open>attemptHealthCheck\<close>, from the point where the request has
  settled with \<open>r\<close> and \<open>performance.now()\<close> reads \<open>now\<close>, when the callback it calls
  returns normally (\<open>try_block_cb\<close> below is the block for a callback that may
  throw). \<open>Inl e\<close>: the block threw \<open>e\<close> (the rejection itself, or the Error for a
  status other than 200). \<open>Inr\<close>: the block ran to its end, with the state after
  \<open>setHealth\<close> and the actions taken.
\<close>

definition try_block ::
  "HealthCheckOptions \<Rightarrow> ms \<Rightarrow> reply \<Rightarrow> ms \<Rightarrow> 'a IHealthStatus_scheme
     \<Rightarrow> thrown + ('a IHealthStatus_scheme \<times> action list)" where
  "try_block opts startTime r now prev =
     (case r of
        Rejects e \<Rightarrow> Inl e
      | Resolves resp \<Rightarrow>
          let rt = now - startTime in
          if resp_status resp = 200 then
            let isSlowResponse = (rt > responseTimeThreshold opts);
                st = (if isSlowResponse then unhealthy else healthy);
                next = prev
                  \<lparr>status := st,
                   lastChecked := Some now,
                   error := None,
                   rawError := None,
                   responseTime := Some rt,
                   retryCount := Some 0,
                   requestDetails := Some (RequestDetails
                     (RequestInfo
                        (or_string (config_url (resp_config resp)) [])
                        (or_string (map_option toUpperCase (config_method (resp_config resp))) [])
                        (config_headers (resp_config resp)))
                     (Some (ResponseInfo (resp_status resp) (resp_statusText resp)
                        (resp_headers resp) (resp_data resp))))\<rparr>
            in
              if isSlowResponse then
                Inr (next, SetHealth # optional_call (onUnhealthy opts)
                  (\<lambda>cb. OnUnhealthy cb (new_Error
                     (''Response time ('' @ Number_toString rt @ ''ms) exceeded threshold (''
                        @ Number_toString (responseTimeThreshold opts) @ ''ms)''))))
              else
                Inr (next, SetHealth # optional_call (onHealthy opts) (\<lambda>cb. OnHealthy cb resp))
          else
            Inl (new_Error
              (''HTTP '' @ Number_toString (resp_status resp) @ '': '' @ resp_statusText resp)))"

text \<open>
  The \<open>catch\<close> block once no retry is left: the unhealthy publication and the
  \<open>onUnhealthy\<close> call. The publication writes no \<open>responseTime\<close>.
\<close>

definition errorMessage :: "thrown \<Rightarrow> string" where
  "errorMessage e = (if isError e then message e else ''Unknown error occurred'')"

definition catch_final ::
  "HealthCheckOptions \<Rightarrow> nat \<Rightarrow> thrown \<Rightarrow> ms \<Rightarrow> 'a IHealthStatus_scheme
     \<Rightarrow> 'a IHealthStatus_scheme \<times> action list" where
  "catch_final opts currentRetry e now prev =
     (prev
        \<lparr>status := unhealthy,
         lastChecked := Some now,
         error := Some (errorMessage e),
         rawError := Some e,
         retryCount := Some currentRetry,
         requestDetails := Some (RequestDetails
           (RequestInfo
              (or_string (case err_config e of None \<Rightarrow> None | Some c \<Rightarrow> config_url c) (url opts))
              (or_string (case err_config e of None \<Rightarrow> None
                          | Some c \<Rightarrow> map_option toUpperCase (config_method c)) ''GET'')
              (case (case err_config e of None \<Rightarrow> None | Some c \<Rightarrow> config_headers c) of
                 None \<Rightarrow> Some ''{}'' | Some h \<Rightarrow> Some h))
           (case err_response e of
              None \<Rightarrow> None
            | Some resp \<Rightarrow> Some (ResponseInfo (resp_status resp) (resp_statusText resp)
                (resp_headers resp) (resp_data resp))))\<rparr>,
      SetHealth # optional_call (onUnhealthy opts)
        (\<lambda>cb. OnUnhealthy cb (if isError e then e else new_Error (errorMessage e))))"

text \<open>
  The world a cycle runs in: how the request of attempt \<open>i\<close> (counted from 0) settles,
  how long it takes, and by how much the \<open>setTimeout\<close> after attempt \<open>i\<close> overshoots
  \<open>retryDelay\<close>. \<open>setTimeout\<close> treats a negative delay as 0.
\<close>

record world =
  transport :: "nat \<Rightarrow> reply"
  latency :: "nat \<Rightarrow> ms"
  timer_lag :: "nat \<Rightarrow> ms"

definition retry_wait :: "HealthCheckOptions \<Rightarrow> world \<Rightarrow> nat \<Rightarrow> ms" where
  "retry_wait opts w i = max 0 (retryDelay opts) + timer_lag w i"

text \<open>
  \<open>attemptHealthCheck\<close>, with callbacks that return normally: the closure's variables
  \<open>startTime\<close> and \<open>currentRetry\<close> are arguments, \<open>now\<close> is the clock when the attempt
  starts, \<open>prev\<close> the state \<open>setHealth\<close> will see. The attempt number equals
  \<open>currentRetry\<close>, which every retry increments. The result is the state after the
  cycle and the actions in order.
\<close>

function attemptHealthCheck ::
  "HealthCheckOptions \<Rightarrow> world \<Rightarrow> ms \<Rightarrow> nat \<Rightarrow> ms \<Rightarrow> 'a IHealthStatus_scheme
     \<Rightarrow> 'a IHealthStatus_scheme \<times> action list" where
  "attemptHealthCheck opts w startTime currentRetry now prev =
     (let t = now + latency w currentRetry in
      case try_block opts startTime (transport w currentRetry) t prev of
        Inr (next, acts) \<Rightarrow> (next, Get (url opts) # acts)
      | Inl e \<Rightarrow>
          if int currentRetry < retryAttempts opts then
            (let (next, acts) =
                   attemptHealthCheck opts w startTime (Suc currentRetry)
                     (t + retry_wait opts w currentRetry) prev
             in (next, Get (url opts) # Sleep (retryDelay opts) # acts))
          else
            (let (next, acts) = catch_final opts currentRetry e t prev
             in (next, Get (url opts) # acts)))"
  by pat_completeness auto
termination
  by (relation "measure (\<lambda>(opts, w, startTime, currentRetry, now, prev).
        nat (retryAttempts opts - int currentRetry))") auto

text \<open>\<open>checkHealth\<close>: nothing happens unless \<open>enabled\<close>; the clock is read once.\<close>

definition checkHealth ::
  "HealthCheckOptions \<Rightarrow> world \<Rightarrow> ms \<Rightarrow> 'a IHealthStatus_scheme
     \<Rightarrow> 'a IHealthStatus_scheme \<times> action list" where
  "checkHealth opts w now prev =
     (if \<not> enabled opts then (prev, [])
      else attemptHealthCheck opts w now 0 now prev)"

declare attemptHealthCheck.simps [simp del]

section \<open>One probe cycle, with callbacks that may throw\<close>

text \<open>
  \<open>onHealthy?.(response)\<close> and \<open>onUnhealthy?.(error)\<close> are called inside the \<open>try\<close>
  block, after \<open>setHealth\<close>; a callback that throws there is caught by the \<open>catch\<close>
  block like a failed request. \<open>onUnhealthy\<close> is called once more in the \<open>catch\<close> block,
  where nothing catches it. \<open>in_try i\<close> says what the callback called in the \<open>try\<close>
  block of attempt \<open>i\<close> does, \<open>in_catch\<close> what the call in the \<open>catch\<close> block does:
  \<open>None\<close> returns, \<open>Some e\<close> throws \<open>e\<close>. A callback that was not supplied is not
  called and throws nothing.
\<close>

record callbacks =
  in_try :: "nat \<Rightarrow> thrown option"
  in_catch :: "thrown option"

definition call_outcome :: "callback option \<Rightarrow> thrown option \<Rightarrow> thrown option" where
  "call_outcome cb outcome = (case cb of None \<Rightarrow> None | Some c \<Rightarrow> outcome)"

text \<open>
  The \<open>try\<close> block in full: the exception it ends with, if any, the state it leaves
  (the publication stays when the callback throws after it) and the actions taken.
\<close>

definition try_block_cb ::
  "HealthCheckOptions \<Rightarrow> thrown option \<Rightarrow> ms \<Rightarrow> reply \<Rightarrow> ms \<Rightarrow> 'a IHealthStatus_scheme
     \<Rightarrow> thrown option \<times> 'a IHealthStatus_scheme \<times> action list" where
  "try_block_cb opts outcome startTime r now prev =
     (case r of
        Rejects e \<Rightarrow> (Some e, prev, [])
      | Resolves resp \<Rightarrow>
          let rt = now - startTime in
          if resp_status resp = 200 then
            let isSlowResponse = (rt > responseTimeThreshold opts);
                st = (if isSlowResponse then unhealthy else healthy);
                next = prev
                  \<lparr>status := st,
                   lastChecked := Some now,
                   error := None,
                   rawError := None,
                   responseTime := Some rt,
                   retryCount := Some 0,
                   requestDetails := Some (RequestDetails
                     (RequestInfo
                        (or_string (config_url (resp_config resp)) [])
                        (or_string (map_option toUpperCase (config_method (resp_config resp))) [])
                        (config_headers (resp_config resp)))
                     (Some (ResponseInfo (resp_status resp) (resp_statusText resp)
                        (resp_headers resp) (resp_data resp))))\<rparr>
            in
              if isSlowResponse then
                (call_outcome (onUnhealthy opts) outcome, next,
                 SetHealth # optional_call (onUnhealthy opts)
                  (\<lambda>cb. OnUnhealthy cb (new_Error
                     (''Response time ('' @ Number_toString rt @ ''ms) exceeded threshold (''
                        @ Number_toString (responseTimeThreshold opts) @ ''ms)''))))
              else
                (call_outcome (onHealthy opts) outcome, next,
                 SetHealth # optional_call (onHealthy opts) (\<lambda>cb. OnHealthy cb resp))
          else
            (Some (new_Error
              (''HTTP '' @ Number_toString (resp_status resp) @ '': '' @ resp_statusText resp)),
             prev, []))"

text \<open>
  \<open>attemptHealthCheck\<close> in full. The third component is the value the promise
  rejects with when \<open>onUnhealthy\<close> throws in the \<open>catch\<close> block.
\<close>

function attemptHealthCheck_cb ::
  "HealthCheckOptions \<Rightarrow> world \<Rightarrow> callbacks \<Rightarrow> ms \<Rightarrow> nat \<Rightarrow> ms \<Rightarrow> 'a IHealthStatus_scheme
     \<Rightarrow> 'a IHealthStatus_scheme \<times> action list \<times> thrown option" where
  "attemptHealthCheck_cb opts w cbs startTime currentRetry now prev =
     (let t = now + latency w currentRetry in
      case try_block_cb opts (in_try cbs currentRetry) startTime (transport w currentRetry) t prev of
        (None, next, acts) \<Rightarrow> (next, Get (url opts) # acts, None)
      | (Some e, h, acts) \<Rightarrow>
          if int currentRetry < retryAttempts opts then
            (let (next, acts', unhandled) =
                   attemptHealthCheck_cb opts w cbs startTime (Suc currentRetry)
                     (t + retry_wait opts w currentRetry) h
             in (next, Get (url opts) # acts @ Sleep (retryDelay opts) # acts', unhandled))
          else
            (let (next, acts') = catch_final opts currentRetry e t h
             in (next, Get (url opts) # acts @ acts',
                 call_outcome (onUnhealthy opts) (in_catch cbs))))"
  by pat_completeness auto
termination
  by (relation "measure (\<lambda>(opts, w, cbs, startTime, currentRetry, now, prev).
        nat (retryAttempts opts - int currentRetry))") auto

definition checkHealth_cb ::
  "HealthCheckOptions \<Rightarrow> world \<Rightarrow> callbacks \<Rightarrow> ms \<Rightarrow> 'a IHealthStatus_scheme
     \<Rightarrow> 'a IHealthStatus_scheme \<times> action list \<times> thrown option" where
  "checkHealth_cb opts w cbs now prev =
     (if \<not> enabled opts then (prev, [], None)
      else attemptHealthCheck_cb opts w cbs now 0 now prev)"

declare attemptHealthCheck_cb.simps [simp del]

section \<open>The effects: scheduling, disabling, reconfiguration\<close>

text \<open>
  The updater both reset sites pass to \<open>setHealth\<close>: the disabled branch of the
  scheduling effect (hook and component) and the component's effect on \<open>[url]\<close>.
\<close>

definition reset_health :: "'a IHealthStatus_scheme \<Rightarrow> 'a IHealthStatus_scheme" where
  "reset_health prev =
     prev\<lparr>status := loading, lastChecked := None, error := None, rawError := None,
          requestDetails := None\<rparr>"

text \<open>
  A cycle in flight: the options its \<open>checkHealth\<close> closure captured, its \<open>startTime\<close>
  and \<open>currentRetry\<close>, and what it is waiting for.
\<close>

datatype phase = AwaitingResponse | AwaitingTimer | Finished

datatype cycle =
  Cycle (cycle_opts: HealthCheckOptions) (cycle_start: ms) (cycle_retry: nat) (cycle_phase: phase)

text \<open>
  A mounted instance: the state of \<open>useState\<close>; the props of the last render, against
  which the next render compares its dependency arrays; the live run of the scheduling
  effect, if any (the options its closure captured; \<open>isSubscribed\<close> is true and the
  interval timer is running exactly while it is live); the cycles started so far; and
  all actions taken, in order. The \<open>AbortController\<close> of the effect is left out: its
  signal is passed to nothing, so \<open>controller.abort()\<close> has no observer.
\<close>

record 'a monitor =
  health :: "'a IHealthStatus_scheme"
  props :: HealthCheckOptions
  subscription :: "HealthCheckOptions option"
  inflight :: "cycle list"
  actions :: "action list"

text \<open>
  \<open>useCallback\<close> returns a new \<open>checkHealth\<close> when one of its dependencies changed,
  and the scheduling effect runs again when \<open>checkHealth\<close>, \<open>interval\<close> or \<open>enabled\<close>
  changed.
\<close>

definition checkHealth_changed :: "HealthCheckOptions \<Rightarrow> HealthCheckOptions \<Rightarrow> bool" where
  "checkHealth_changed old new \<longleftrightarrow>
     url old \<noteq> url new \<or> onHealthy old \<noteq> onHealthy new \<or> onUnhealthy old \<noteq> onUnhealthy new
     \<or> enabled old \<noteq> enabled new \<or> retryAttempts old \<noteq> retryAttempts new
     \<or> retryDelay old \<noteq> retryDelay new
     \<or> responseTimeThreshold old \<noteq> responseTimeThreshold new"

definition schedule_changed :: "HealthCheckOptions \<Rightarrow> HealthCheckOptions \<Rightarrow> bool" where
  "schedule_changed old new \<longleftrightarrow>
     checkHealth_changed old new \<or> interval old \<noteq> interval new \<or> enabled old \<noteq> enabled new"

text \<open>
  \<open>runHealthCheck\<close>: when \<open>isSubscribed\<close>, call \<open>checkHealth\<close>, which returns at once
  unless \<open>enabled\<close>, and otherwise reads the clock and sends the first request.
\<close>

definition runHealthCheck :: "ms \<Rightarrow> 'a monitor \<Rightarrow> 'a monitor" where
  "runHealthCheck now m =
     (case subscription m of
        None \<Rightarrow> m
      | Some opts \<Rightarrow>
          if \<not> enabled opts then m
          else m\<lparr>inflight := inflight m @ [Cycle opts now 0 AwaitingResponse],
                 actions := actions m @ [Get (url opts)]\<rparr>)"

text \<open>
  The body of the scheduling effect: when disabled, reset and return no cleanup;
  otherwise subscribe, run a check at once and start the interval timer.
\<close>

definition schedule_effect :: "HealthCheckOptions \<Rightarrow> ms \<Rightarrow> 'a monitor \<Rightarrow> 'a monitor" where
  "schedule_effect opts now m =
     (if \<not> enabled opts then
        m\<lparr>health := reset_health (health m), actions := actions m @ [SetHealth]\<rparr>
      else runHealthCheck now (m\<lparr>subscription := Some opts\<rparr>))"

text \<open>
  The cleanup the effect returned: \<open>isSubscribed = false\<close>, \<open>controller.abort()\<close>,
  \<open>clearInterval\<close>. Cycles in flight are not touched.
\<close>

definition cleanup :: "'a monitor \<Rightarrow> 'a monitor" where
  "cleanup m = m\<lparr>subscription := None\<rparr>"

text \<open>The component's effect on \<open>[url]\<close>.\<close>

definition url_effect :: "'a monitor \<Rightarrow> 'a monitor" where
  "url_effect m = m\<lparr>health := reset_health (health m), actions := actions m @ [SetHealth]\<rparr>"

text \<open>Mounting runs every effect; the hook has one, the component two, in this order.\<close>

definition useHealthCheck_mount :: "HealthCheckOptions \<Rightarrow> ms \<Rightarrow> unit monitor" where
  "useHealthCheck_mount opts now =
     schedule_effect opts now
       \<lparr>health = initial_health, props = opts, subscription = None, inflight = [], actions = []\<rparr>"

definition HealthCheck_mount ::
  "HealthCheckOptions \<Rightarrow> ms \<Rightarrow> \<lparr>expanded :: bool, showDevTools :: bool option\<rparr> monitor" where
  "HealthCheck_mount opts now =
     schedule_effect opts now
       (url_effect
          \<lparr>health = initial_component_health, props = opts, subscription = None,
           inflight = [], actions = []\<rparr>)"

text \<open>
  A render with new props. React first runs the cleanups of the effects whose
  dependencies changed, then their bodies in the order of declaration.
\<close>

definition useHealthCheck_render :: "HealthCheckOptions \<Rightarrow> ms \<Rightarrow> 'a monitor \<Rightarrow> 'a monitor" where
  "useHealthCheck_render opts now m =
     (if schedule_changed (props m) opts
      then (schedule_effect opts now (cleanup m))\<lparr>props := opts\<rparr>
      else m\<lparr>props := opts\<rparr>)"

definition HealthCheck_render :: "HealthCheckOptions \<Rightarrow> ms \<Rightarrow> 'a monitor \<Rightarrow> 'a monitor" where
  "HealthCheck_render opts now m =
     (let m1 = (if schedule_changed (props m) opts then cleanup m else m);
          m2 = (if url (props m) \<noteq> url opts then url_effect m1 else m1);
          m3 = (if schedule_changed (props m) opts then schedule_effect opts now m2 else m2)
      in m3\<lparr>props := opts\<rparr>)"

text \<open>
  The pending request of cycle \<open>i\<close> settles with \<open>r\<close> while the clock reads \<open>now\<close>: the
  rest of the \<open>try\<close> block runs and, if it throws, the \<open>catch\<close> block, which either
  arms the retry timer or publishes. \<open>None\<close>: cycle \<open>i\<close> has no pending request.
\<close>

definition settle :: "nat \<Rightarrow> reply \<Rightarrow> ms \<Rightarrow> 'a monitor \<Rightarrow> 'a monitor option" where
  "settle i r now m =
     (if i < length (inflight m) \<and> cycle_phase (inflight m ! i) = AwaitingResponse then
        (let c = inflight m ! i in
         case try_block (cycle_opts c) (cycle_start c) r now (health m) of
           Inr (h, acts) \<Rightarrow>
             Some (m\<lparr>health := h,
                     inflight := (inflight m)
                       [i := Cycle (cycle_opts c) (cycle_start c) (cycle_retry c) Finished],
                     actions := actions m @ acts\<rparr>)
         | Inl e \<Rightarrow>
             if int (cycle_retry c) < retryAttempts (cycle_opts c) then
               Some (m\<lparr>inflight := (inflight m)
                         [i := Cycle (cycle_opts c) (cycle_start c) (Suc (cycle_retry c))
                                 AwaitingTimer],
                       actions := actions m @ [Sleep (retryDelay (cycle_opts c))]\<rparr>)
             else
               (let (h, acts) = catch_final (cycle_opts c) (cycle_retry c) e now (health m)
                in Some (m\<lparr>health := h,
                           inflight := (inflight m)
                             [i := Cycle (cycle_opts c) (cycle_start c) (cycle_retry c) Finished],
                           actions := actions m @ acts\<rparr>)))
      else None)"

text \<open>The retry timer of cycle \<open>i\<close> fires: \<open>attemptHealthCheck\<close> sends the next request.\<close>

definition timer_fires :: "nat \<Rightarrow> 'a monitor \<Rightarrow> 'a monitor option" where
  "timer_fires i m =
     (if i < length (inflight m) \<and> cycle_phase (inflight m ! i) = AwaitingTimer then
        (let c = inflight m ! i in
         Some (m\<lparr>inflight := (inflight m)
                   [i := Cycle (cycle_opts c) (cycle_start c) (cycle_retry c) AwaitingResponse],
                 actions := actions m @ [Get (url (cycle_opts c))]\<rparr>))
      else None)"

text \<open>The interval timer fires, which it can only do while the effect is live.\<close>

definition tick :: "ms \<Rightarrow> 'a monitor \<Rightarrow> 'a monitor option" where
  "tick now m = (if subscription m = None then None else Some (runHealthCheck now m))"

text \<open>
  What can happen to a mounted instance, and a run of such events. \<open>is_component\<close>
  tells the component from the hook.
\<close>

datatype event =
  Render HealthCheckOptions ms
  | Tick ms
  | Settle nat reply ms
  | TimerFires nat

definition step :: "bool \<Rightarrow> event \<Rightarrow> 'a monitor \<Rightarrow> 'a monitor option" where
  "step is_component ev m =
     (case ev of
        Render opts now \<Rightarrow>
          Some (if is_component then HealthCheck_render opts now m
                else useHealthCheck_render opts now m)
      | Tick now \<Rightarrow> tick now m
      | Settle i r now \<Rightarrow> settle i r now m
      | TimerFires i \<Rightarrow> timer_fires i m)"

fun run :: "bool \<Rightarrow> event list \<Rightarrow> 'a monitor \<Rightarrow> 'a monitor option" where
  "run is_component [] m = Some m"
| "run is_component (ev # evs) m =
     (case step is_component ev m of None \<Rightarrow> None | Some m' \<Rightarrow> run is_component evs m')"

section \<open>Vocabulary of the properties\<close>

text \<open>
  An attempt fails when the request rejects or resolves with a status other than 200;
  \<open>thrown_of\<close> is the value the \<open>catch\<close> block then receives.
\<close>

definition fails :: "reply \<Rightarrow> bool" where
  "fails r = (case r of Rejects e \<Rightarrow> True | Resolves resp \<Rightarrow> resp_status resp \<noteq> 200)"

definition thrown_of :: "reply \<Rightarrow> thrown" where
  "thrown_of r =
     (case r of
        Rejects e \<Rightarrow> e
      | Resolves resp \<Rightarrow> new_Error
          (''HTTP '' @ Number_toString (resp_status resp) @ '': '' @ resp_statusText resp))"


text \<open>
  The invariant on a published state, against the threshold of the publishing cycle.
\<close>

definition status_consistent :: "ms \<Rightarrow> 'a IHealthStatus_scheme \<Rightarrow> bool" where
  "status_consistent threshold h \<longleftrightarrow>
     (status h = healthy \<longrightarrow>
        error h = None \<and> (case responseTime h of None \<Rightarrow> False | Some rt \<Rightarrow> rt \<le> threshold))
     \<and> (status h = unhealthy \<longrightarrow>
          error h \<noteq> None \<or> (case responseTime h of None \<Rightarrow> False | Some rt \<Rightarrow> rt > threshold))"


fun is_Get :: "action \<Rightarrow> bool" where
  "is_Get (Get u) = True"
| "is_Get a = False"

fun is_Sleep :: "action \<Rightarrow> bool" where
  "is_Sleep (Sleep d) = True"
| "is_Sleep a = False"

fun is_SetHealth :: "action \<Rightarrow> bool" where
  "is_SetHealth SetHealth = True"
| "is_SetHealth a = False"

fun is_OnHealthy :: "action \<Rightarrow> bool" where
  "is_OnHealthy (OnHealthy cb r) = True"
| "is_OnHealthy a = False"

fun is_OnUnhealthy :: "action \<Rightarrow> bool" where
  "is_OnUnhealthy (OnUnhealthy cb e) = True"
| "is_OnUnhealthy a = False"

definition count_of :: "(action \<Rightarrow> bool) \<Rightarrow> action list \<Rightarrow> nat" where
  "count_of p acts = length (filter p acts)"

text \<open>The clock time a cycle spends on attempts \<open>k, ..., m - 1\<close> and the waits after them.\<close>

definition time_spent :: "HealthCheckOptions \<Rightarrow> world \<Rightarrow> nat \<Rightarrow> nat \<Rightarrow> ms" where
  "time_spent opts w k m = (\<Sum>i = k..<m. latency w i + retry_wait opts w i)"

fun retry_actions :: "HealthCheckOptions \<Rightarrow> nat \<Rightarrow> action list" where
  "retry_actions opts 0 = []"
| "retry_actions opts (Suc n) = Get (url opts) # Sleep (retryDelay opts) # retry_actions opts n"

text \<open>
  The events through which cycle \<open>i\<close> of a mounted instance lives when the world is
  \<open>w\<close>: each request settles as the world says, and a retry timer fires after each
  failure that leaves a retry.
\<close>

function cycle_events :: "HealthCheckOptions \<Rightarrow> world \<Rightarrow> nat \<Rightarrow> nat \<Rightarrow> ms \<Rightarrow> event list" where
  "cycle_events opts w i k now =
     (let t = now + latency w k in
      Settle i (transport w k) t #
        (if fails (transport w k) \<and> int k < retryAttempts opts
         then TimerFires i # cycle_events opts w i (Suc k) (t + retry_wait opts w k)
         else []))"
  by pat_completeness auto
termination
  by (relation "measure (\<lambda>(opts, w, i, k, now). nat (retryAttempts opts - int k))") auto

declare cycle_events.simps [simp del]

section \<open>Concrete configurations and worlds\<close>

text \<open>
  The configuration of the specification's example, with both callbacks supplied.
  Worlds: every request is refused; the first two are refused and the third answers
  200 after 50 ms; the first is refused and the second answers 200 after 50 ms; every
  request answers 200 after 50 ms; every request answers 200 after 1200 ms; every
  request answers 204. Variants of the configuration: a tighter threshold, no retries,
  disabled, another URL, another URL and disabled, no \<open>onUnhealthy\<close>, the defaults of
  the hook, and one that breaks every constraint the specification puts on a
  configuration. Callbacks that return, and callbacks of which the one called in
  attempt \<open>k\<close> throws. Histories of a mounted instance: a healthy cycle followed by a
  cycle that exhausts its retries, with the states they lead the component and the
  hook to; and a healthy cycle of 300 ms followed by a render with a threshold of
  100 ms.
\<close>

definition example_options :: HealthCheckOptions where
  "example_options =
     \<lparr>url = ''https://x/health'', interval = 10000, onHealthy = Some 1, onUnhealthy = Some 2,
      enabled = True, retryAttempts = 2, retryDelay = 100, responseTimeThreshold = 500\<rparr>"

definition network_error :: thrown where
  "network_error = Thrown True ''Network Error''
     (Some (AxiosConfig (Some ''https://x/health'') (Some ''get'') (Some ''{}''))) None"

definition ok_response :: axios_response where
  "ok_response = AxiosResponse 200 ''OK'' ''{}'' ''up''
     (AxiosConfig (Some ''https://x/health'') (Some ''get'') (Some ''{}''))"

definition failing_world :: world where
  "failing_world =
     \<lparr>transport = (\<lambda>i. Rejects network_error), latency = (\<lambda>i. 10), timer_lag = (\<lambda>i. 0)\<rparr>"

definition flaky_world :: world where
  "flaky_world =
     \<lparr>transport = (\<lambda>i. if i < 2 then Rejects network_error else Resolves ok_response),
      latency = (\<lambda>i. if i < 2 then 10 else 50), timer_lag = (\<lambda>i. 0)\<rparr>"

definition prompt_world :: world where
  "prompt_world =
     \<lparr>transport = (\<lambda>i. Resolves ok_response), latency = (\<lambda>i. 50), timer_lag = (\<lambda>i. 0)\<rparr>"

definition slow_world :: world where
  "slow_world =
     \<lparr>transport = (\<lambda>i. Resolves ok_response), latency = (\<lambda>i. 1200), timer_lag = (\<lambda>i. 0)\<rparr>"

definition tight_options :: HealthCheckOptions where
  "tight_options = example_options\<lparr>responseTimeThreshold := 100\<rparr>"




definition invalid_options :: HealthCheckOptions where
  "invalid_options =
     \<lparr>url = [], interval = 0, onHealthy = None, onUnhealthy = None, enabled = True,
      retryAttempts = - 1, retryDelay = 5000, responseTimeThreshold = 0\<rparr>"

definition disabled_options :: HealthCheckOptions where
  "disabled_options = example_options\<lparr>enabled := False\<rparr>"

definition moved_options :: HealthCheckOptions where
  "moved_options = example_options\<lparr>url := ''https://y/health''\<rparr>"

definition returning :: callbacks where
  "returning = \<lparr>in_try = (\<lambda>i. None), in_catch = None\<rparr>"

definition boom :: thrown where
  "boom = Thrown True ''callback failed'' None None"

definition throwing_at :: "nat \<Rightarrow> callbacks" where
  "throwing_at k = \<lparr>in_try = (\<lambda>i. if i = k then Some boom else None), in_catch = None\<rparr>"


definition default_like_options :: HealthCheckOptions where
  "default_like_options =
     (default_options ''https://x/health'')\<lparr>onHealthy := Some 1, onUnhealthy := Some 2\<rparr>"

definition once_failing_world :: world where
  "once_failing_world =
     \<lparr>transport = (\<lambda>i. if i < 1 then Rejects network_error else Resolves ok_response),
      latency = (\<lambda>i. if i < 1 then 10 else 50), timer_lag = (\<lambda>i. 0)\<rparr>"

definition silent_options :: HealthCheckOptions where
  "silent_options = example_options\<lparr>onUnhealthy := None\<rparr>"

definition two_cycle_history :: "event list" where
  "two_cycle_history =
     [Settle 0 (Resolves ok_response) 50, Tick 10000,
      Settle 1 (Rejects network_error) 10010, TimerFires 1,
      Settle 1 (Rejects network_error) 10120, TimerFires 1,
      Settle 1 (Rejects network_error) 10230]"

definition component_settled :: "\<lparr>expanded :: bool, showDevTools :: bool option\<rparr> monitor" where
  "component_settled =
     (case run True two_cycle_history (HealthCheck_mount example_options 0) of
        Some m \<Rightarrow> m
      | None \<Rightarrow> HealthCheck_mount example_options 0)"

definition hook_settled :: "unit monitor" where
  "hook_settled =
     (case run False two_cycle_history (useHealthCheck_mount example_options 0) of
        Some m \<Rightarrow> m
      | None \<Rightarrow> useHealthCheck_mount example_options 0)"

definition moved_disabled_options :: HealthCheckOptions where
  "moved_disabled_options = example_options\<lparr>url := ''https://y/health'', enabled := False\<rparr>"


declare digits.simps [simp del]


section \<open>Lemmas on one cycle\<close>

lemma try_block_fails:
  "fails r \<Longrightarrow> try_block opts startTime r now prev = Inl (thrown_of r)"
  by (cases r) (simp_all add: fails_def thrown_of_def try_block_def)

lemma attempt_retry:
  assumes "fails (transport w k)" and "int k < retryAttempts opts"
  shows "attemptHealthCheck opts w startTime k now prev =
           apsnd (\<lambda>acts. Get (url opts) # Sleep (retryDelay opts) # acts)
             (attemptHealthCheck opts w startTime (Suc k)
                (now + latency w k + retry_wait opts w k) prev)"
  using assms
  by (subst attemptHealthCheck.simps) (simp add: try_block_fails split: prod.splits)

lemma attempt_exhausted:
  assumes "fails (transport w k)" and "\<not> int k < retryAttempts opts"
  shows "attemptHealthCheck opts w startTime k now prev =
           apsnd (\<lambda>acts. Get (url opts) # acts)
             (catch_final opts k (thrown_of (transport w k)) (now + latency w k) prev)"
  using assms
  by (subst attemptHealthCheck.simps) (simp add: try_block_fails split: prod.splits)

lemma attempt_settles:
  assumes "try_block opts startTime (transport w k) (now + latency w k) prev = Inr r"
  shows "attemptHealthCheck opts w startTime k now prev = apsnd (\<lambda>acts. Get (url opts) # acts) r"
  using assms by (subst attemptHealthCheck.simps) (simp split: prod.splits)

lemma skip_failures:
  assumes "\<forall>i. k \<le> i \<and> i < m \<longrightarrow> fails (transport w i)"
    and "k \<le> m" and "int m \<le> retryAttempts opts"
  shows "attemptHealthCheck opts w startTime k now prev =
           apsnd (\<lambda>acts. retry_actions opts (m - k) @ acts)
             (attemptHealthCheck opts w startTime m (now + time_spent opts w k m) prev)"
  using assms
proof (induction "m - k" arbitrary: k now)
  case 0
  then show ?case
    by (cases "attemptHealthCheck opts w startTime k now prev") (simp add: time_spent_def)
next
  case (Suc d)
  then have km: "k < m" and d: "d = m - Suc k" by auto
  have f: "fails (transport w k)" using Suc.prems(1) km by simp
  have lt: "int k < retryAttempts opts" using km Suc.prems(3) by simp
  have ts: "now + latency w k + retry_wait opts w k + time_spent opts w (Suc k) m =
            now + time_spent opts w k m"
    using km by (simp add: time_spent_def sum.atLeast_Suc_lessThan)
  have ih: "attemptHealthCheck opts w startTime (Suc k) (now + latency w k + retry_wait opts w k) prev =
           apsnd (\<lambda>acts. retry_actions opts (m - Suc k) @ acts)
             (attemptHealthCheck opts w startTime m (now + time_spent opts w k m) prev)"
    using Suc.hyps(1) [OF d, of "now + latency w k + retry_wait opts w k"] Suc.prems km
    by (simp only: ts) simp
  have mk: "m - k = Suc (m - Suc k)" using km by simp
  show ?case
    unfolding attempt_retry [OF f lt] ih mk
    by (cases "attemptHealthCheck opts w startTime m (now + time_spent opts w k m) prev") simp
qed

lemma count_of_simps [simp]:
  "count_of p [] = 0"
  "count_of p (a # acts) = (if p a then Suc (count_of p acts) else count_of p acts)"
  "count_of p (xs @ ys) = count_of p xs + count_of p ys"
  by (simp_all add: count_of_def)

lemma count_retry_actions [simp]:
  "count_of is_Get (retry_actions opts n) = n"
  "count_of is_Sleep (retry_actions opts n) = n"
  "count_of is_SetHealth (retry_actions opts n) = 0"
  "count_of is_OnHealthy (retry_actions opts n) = 0"
  "count_of is_OnUnhealthy (retry_actions opts n) = 0"
  by (induction n) simp_all

lemma count_optional_call [simp]:
  "count_of is_Get (optional_call cb f) = (case cb of None \<Rightarrow> 0 | Some c \<Rightarrow> if is_Get (f c) then 1 else 0)"
  "count_of is_Sleep (optional_call cb f) = (case cb of None \<Rightarrow> 0 | Some c \<Rightarrow> if is_Sleep (f c) then 1 else 0)"
  "count_of is_SetHealth (optional_call cb f) = (case cb of None \<Rightarrow> 0 | Some c \<Rightarrow> if is_SetHealth (f c) then 1 else 0)"
  "count_of is_OnHealthy (optional_call cb f) = (case cb of None \<Rightarrow> 0 | Some c \<Rightarrow> if is_OnHealthy (f c) then 1 else 0)"
  "count_of is_OnUnhealthy (optional_call cb f) = (case cb of None \<Rightarrow> 0 | Some c \<Rightarrow> if is_OnUnhealthy (f c) then 1 else 0)"
  by (simp_all add: optional_call_def split: option.splits)

text \<open>A cycle in which every attempt fails, from attempt \<open>k\<close> on.\<close>

lemma all_fail_cycle:
  assumes "\<forall>i. fails (transport w i)" and "int k \<le> retryAttempts opts"
  shows "attemptHealthCheck opts w startTime k now prev =
           apsnd (\<lambda>acts. retry_actions opts (nat (retryAttempts opts) - k) @ Get (url opts) # acts)
             (catch_final opts (nat (retryAttempts opts))
                (thrown_of (transport w (nat (retryAttempts opts))))
                (now + time_spent opts w k (nat (retryAttempts opts))
                   + latency w (nat (retryAttempts opts))) prev)"
proof -
  let ?m = "nat (retryAttempts opts)"
  have km: "k \<le> ?m" and m: "int ?m \<le> retryAttempts opts" and nm: "\<not> int ?m < retryAttempts opts"
    using assms(2) by simp_all
  have "\<forall>i. k \<le> i \<and> i < ?m \<longrightarrow> fails (transport w i)" using assms(1) by simp
  from skip_failures [OF this km m]
  have "attemptHealthCheck opts w startTime k now prev =
          apsnd (\<lambda>acts. retry_actions opts (?m - k) @ acts)
            (attemptHealthCheck opts w startTime ?m (now + time_spent opts w k ?m) prev)" .
  also have "attemptHealthCheck opts w startTime ?m (now + time_spent opts w k ?m) prev =
          apsnd (\<lambda>acts. Get (url opts) # acts)
            (catch_final opts ?m (thrown_of (transport w ?m))
               (now + time_spent opts w k ?m + latency w ?m) prev)"
    using assms(1) nm by (intro attempt_exhausted) simp_all
  finally show ?thesis
    by (simp add: apsnd_def map_prod_def split: prod.splits)
qed

lemma try_block_200:
  assumes "resp_status resp = 200"
  shows "\<exists>next. try_block opts startTime (Resolves resp) t prev =
       Inr (next, SetHealth #
         (if t - startTime > responseTimeThreshold opts
          then optional_call (onUnhealthy opts)
                 (\<lambda>cb. OnUnhealthy cb (new_Error
                    (''Response time ('' @ Number_toString (t - startTime)
                       @ ''ms) exceeded threshold (''
                       @ Number_toString (responseTimeThreshold opts) @ ''ms)'')))
          else optional_call (onHealthy opts) (\<lambda>cb. OnHealthy cb resp)))
    \<and> status next = (if t - startTime > responseTimeThreshold opts then unhealthy else healthy)
    \<and> error next = None
    \<and> responseTime next = Some (t - startTime)
    \<and> retryCount next = Some 0
    \<and> IHealthStatus.more next = IHealthStatus.more prev"
  using assms
  by (cases "t - startTime > responseTimeThreshold opts") (simp_all add: try_block_def Let_def)

lemma success_after_failures:
  assumes "\<forall>i. k \<le> i \<and> i < n \<longrightarrow> fails (transport w i)"
    and "k \<le> n" and "int n \<le> retryAttempts opts"
    and "try_block opts startTime (transport w n)
           (now + time_spent opts w k n + latency w n) prev = Inr r"
  shows "attemptHealthCheck opts w startTime k now prev =
           apsnd (\<lambda>acts. retry_actions opts (n - k) @ Get (url opts) # acts) r"
  unfolding skip_failures [OF assms(1-3)] attempt_settles [OF assms(4)]
  by (cases r) simp


lemma attempt_caught_retry:
  assumes "try_block opts startTime (transport w k) (now + latency w k) prev = Inl e"
    and "int k < retryAttempts opts"
  shows "attemptHealthCheck opts w startTime k now prev =
           apsnd (\<lambda>acts. Get (url opts) # Sleep (retryDelay opts) # acts)
             (attemptHealthCheck opts w startTime (Suc k)
                (now + latency w k + retry_wait opts w k) prev)"
  using assms by (subst attemptHealthCheck.simps) (simp split: prod.splits)

lemma attempt_caught_final:
  assumes "try_block opts startTime (transport w k) (now + latency w k) prev = Inl e"
    and "\<not> int k < retryAttempts opts"
  shows "attemptHealthCheck opts w startTime k now prev =
           apsnd (\<lambda>acts. Get (url opts) # acts) (catch_final opts k e (now + latency w k) prev)"
  using assms by (subst attemptHealthCheck.simps) (simp split: prod.splits)





lemma try_block_more:
  "try_block opts startTime r t prev = Inr (h, acts) \<Longrightarrow>
     IHealthStatus.more h = IHealthStatus.more prev"
  by (cases r) (auto simp: try_block_def Let_def split: if_splits)

lemma cycle_more:
  "IHealthStatus.more (fst (attemptHealthCheck opts w startTime k now prev)) =
   IHealthStatus.more prev"
proof (induction opts w startTime k now prev rule: attemptHealthCheck.induct)
  case (1 opts w startTime k now prev)
  let ?t = "now + latency w k"
  show ?case
  proof (cases "try_block opts startTime (transport w k) ?t prev")
    case (Inr r)
    obtain h acts where r: "r = (h, acts)" by (cases r)
    from try_block_more [of opts startTime "transport w k" ?t prev h acts] Inr r
    show ?thesis by (simp add: attempt_settles [OF Inr])
  next
    case (Inl e)
    show ?thesis
    proof (cases "int k < retryAttempts opts")
      case True
      from "1" [OF refl Inl True] show ?thesis
        by (simp add: attempt_caught_retry [OF Inl True])
    next
      case False
      show ?thesis
        by (simp add: attempt_caught_final [OF Inl False] catch_final_def)
    qed
  qed
qed

lemma failing_cycle_responseTime:
  assumes "\<forall>i. fails (transport w i)"
  shows "responseTime (fst (attemptHealthCheck opts w startTime k now prev)) = responseTime prev"
  using assms
proof (induction opts w startTime k now prev rule: attemptHealthCheck.induct)
  case (1 opts w startTime k now prev)
  let ?t = "now + latency w k"
  have Inl: "try_block opts startTime (transport w k) ?t prev = Inl (thrown_of (transport w k))"
    using "1.prems" by (simp add: try_block_fails)
  show ?case
  proof (cases "int k < retryAttempts opts")
    case True
    from "1.IH" [OF refl Inl True "1.prems"] show ?thesis
      by (simp add: attempt_caught_retry [OF Inl True])
  next
    case False
    show ?thesis
      by (simp add: attempt_caught_final [OF Inl False] catch_final_def)
  qed
qed


lemma reset_health_idem: "reset_health (reset_health h) = reset_health h"
  by (simp add: reset_health_def)

lemma health_runHealthCheck: "health (runHealthCheck now m) = health m"
  by (simp add: runHealthCheck_def split: option.splits)

section \<open>A cycle of a mounted instance is a cycle\<close>

text \<open>
  Replaying a world on cycle \<open>i\<close> of a mounted instance, with no other event in
  between, ends in the state and with the actions that \<open>attemptHealthCheck\<close> computes
  (its first request was sent when the cycle started).
\<close>

lemma try_block_succeeds:
  assumes "\<not> fails r"
  shows "\<exists>h acts. try_block opts startTime r t prev = Inr (h, acts)"
proof (cases r)
  case (Resolves resp)
  then have "resp_status resp = 200" using assms by (simp add: fails_def)
  from try_block_200 [OF this, of opts startTime t prev] Resolves show ?thesis by blast
next
  case (Rejects e)
  then show ?thesis using assms by (simp add: fails_def)
qed

lemma replay_cycle:
  assumes "i < length (inflight m)"
    and "inflight m ! i = Cycle opts start k AwaitingResponse"
  shows "\<exists>m' acts. run b (cycle_events opts w i k now) m = Some m'
           \<and> actions m' = actions m @ acts
           \<and> attemptHealthCheck opts w start k now (health m) = (health m', Get (url opts) # acts)"
  using assms
proof (induction opts w i k now arbitrary: m rule: cycle_events.induct)
  case (1 opts w i k now)
  let ?t = "now + latency w k"
  let ?r = "transport w k"
  show ?case
  proof (cases "fails ?r")
    case False
    then obtain h acts where tb: "try_block opts start ?r ?t (health m) = Inr (h, acts)"
      using try_block_succeeds by blast
    have ev: "cycle_events opts w i k now = [Settle i ?r ?t]"
      using False by (subst cycle_events.simps) simp
    have "settle i ?r ?t m =
            Some (m\<lparr>health := h,
                    inflight := (inflight m)[i := Cycle opts start k Finished],
                    actions := actions m @ acts\<rparr>)"
      using "1.prems" tb by (simp add: settle_def)
    then show ?thesis
      using attempt_settles [OF tb] by (simp add: ev step_def)
  next
    case True
    have tb: "try_block opts start ?r ?t (health m) = Inl (thrown_of ?r)"
      using True by (simp add: try_block_fails)
    show ?thesis
    proof (cases "int k < retryAttempts opts")
      case False
      have ev: "cycle_events opts w i k now = [Settle i ?r ?t]"
        using False by (subst cycle_events.simps) simp
      obtain h acts where cf: "catch_final opts k (thrown_of ?r) ?t (health m) = (h, acts)"
        by (cases "catch_final opts k (thrown_of ?r) ?t (health m)")
      have "settle i ?r ?t m =
              Some (m\<lparr>health := h,
                      inflight := (inflight m)[i := Cycle opts start k Finished],
                      actions := actions m @ acts\<rparr>)"
        using "1.prems" tb False cf by (simp add: settle_def)
      then show ?thesis
        using attempt_exhausted [OF True False, of start now "health m"] cf
        by (simp add: ev step_def)
    next
      case lt: True
      let ?m1 = "m\<lparr>inflight := (inflight m)[i := Cycle opts start (Suc k) AwaitingTimer],
                    actions := actions m @ [Sleep (retryDelay opts)]\<rparr>"
      let ?m2 = "?m1\<lparr>inflight := (inflight ?m1)[i := Cycle opts start (Suc k) AwaitingResponse],
                    actions := actions ?m1 @ [Get (url opts)]\<rparr>"
      have ev: "cycle_events opts w i k now =
                  Settle i ?r ?t # TimerFires i
                    # cycle_events opts w i (Suc k) (?t + retry_wait opts w k)"
        using True lt by (subst cycle_events.simps) (simp add: Let_def)
      have s1: "settle i ?r ?t m = Some ?m1"
        using "1.prems" tb lt by (simp add: settle_def)
      have s2: "timer_fires i ?m1 = Some ?m2"
        using "1.prems" by (simp add: timer_fires_def)
      have p1: "i < length (inflight ?m2)" using "1.prems" by simp
      have p2: "inflight ?m2 ! i = Cycle opts start (Suc k) AwaitingResponse"
        using "1.prems" by simp
      from "1.IH" [OF refl _ p1 p2] True lt
      obtain m' acts where
        r: "run b (cycle_events opts w i (Suc k) (?t + retry_wait opts w k)) ?m2 = Some m'"
        and a: "actions m' = actions ?m2 @ acts"
        and c: "attemptHealthCheck opts w start (Suc k) (?t + retry_wait opts w k) (health ?m2) =
                  (health m', Get (url opts) # acts)"
        by blast
      have "run b (cycle_events opts w i k now) m = Some m'"
        using s1 s2 r by (simp add: ev step_def)
      moreover have "actions m' = actions m @ (Sleep (retryDelay opts) # Get (url opts) # acts)"
        using a by simp
      moreover have "attemptHealthCheck opts w start k now (health m) =
          (health m', Get (url opts) # Sleep (retryDelay opts) # Get (url opts) # acts)"
        using attempt_retry [OF True lt, of start now "health m"] c by simp
      ultimately show ?thesis by blast
    qed
  qed
qed

section \<open>Lemmas on a cycle with callbacks that may throw\<close>

lemma try_block_cb_fails:
  "fails r \<Longrightarrow> try_block_cb opts outcome startTime r t prev = (Some (thrown_of r), prev, [])"
  by (cases r) (simp_all add: fails_def thrown_of_def try_block_cb_def)

lemma try_block_cb_200:
  assumes "resp_status resp = 200"
  shows "\<exists>next. try_block_cb opts outcome startTime (Resolves resp) t prev =
       (if t - startTime > responseTimeThreshold opts
        then call_outcome (onUnhealthy opts) outcome
        else call_outcome (onHealthy opts) outcome,
        next,
        SetHealth #
         (if t - startTime > responseTimeThreshold opts
          then optional_call (onUnhealthy opts)
                 (\<lambda>cb. OnUnhealthy cb (Thrown True
                    (''Response time ('' @ Number_toString (t - startTime)
                       @ ''ms) exceeded threshold (''
                       @ Number_toString (responseTimeThreshold opts) @ ''ms)'') None None))
          else optional_call (onHealthy opts) (\<lambda>cb. OnHealthy cb resp)))
    \<and> status next = (if t - startTime > responseTimeThreshold opts then unhealthy else healthy)
    \<and> error next = None
    \<and> responseTime next = Some (t - startTime)
    \<and> retryCount next = Some 0
    \<and> IHealthStatus.more next = IHealthStatus.more prev"
  using assms
  by (cases "t - startTime > responseTimeThreshold opts")
     (simp_all add: try_block_cb_def Let_def new_Error_def)

lemma attempt_cb_settles:
  assumes "try_block_cb opts (in_try cbs k) startTime (transport w k) (now + latency w k) prev =
             (None, h, acts)"
  shows "attemptHealthCheck_cb opts w cbs startTime k now prev = (h, Get (url opts) # acts, None)"
  using assms by (subst attemptHealthCheck_cb.simps) simp

lemma attempt_cb_retry:
  assumes "try_block_cb opts (in_try cbs k) startTime (transport w k) (now + latency w k) prev =
             (Some e, h, acts)"
    and "int k < retryAttempts opts"
  shows "attemptHealthCheck_cb opts w cbs startTime k now prev =
           (case attemptHealthCheck_cb opts w cbs startTime (Suc k)
                   (now + latency w k + retry_wait opts w k) h of
              (next, acts', unhandled) \<Rightarrow>
                (next, Get (url opts) # acts @ Sleep (retryDelay opts) # acts', unhandled))"
  using assms by (subst attemptHealthCheck_cb.simps) simp

lemma attempt_cb_final:
  assumes "try_block_cb opts (in_try cbs k) startTime (transport w k) (now + latency w k) prev =
             (Some e, h, acts)"
    and "\<not> int k < retryAttempts opts"
  shows "attemptHealthCheck_cb opts w cbs startTime k now prev =
           (case catch_final opts k e (now + latency w k) h of
              (next, acts') \<Rightarrow>
                (next, Get (url opts) # acts @ acts',
                 call_outcome (onUnhealthy opts) (in_catch cbs)))"
  using assms by (subst attemptHealthCheck_cb.simps) simp

lemma skip_failures_cb:
  assumes "\<forall>i. k \<le> i \<and> i < m \<longrightarrow> fails (transport w i)"
    and "k \<le> m" and "int m \<le> retryAttempts opts"
  shows "attemptHealthCheck_cb opts w cbs startTime k now prev =
           (case attemptHealthCheck_cb opts w cbs startTime m (now + time_spent opts w k m) prev of
              (next, acts, unhandled) \<Rightarrow> (next, retry_actions opts (m - k) @ acts, unhandled))"
  using assms
proof (induction "m - k" arbitrary: k now)
  case 0
  then show ?case
    by (cases "attemptHealthCheck_cb opts w cbs startTime k now prev") (simp add: time_spent_def)
next
  case (Suc d)
  then have km: "k < m" and d: "d = m - Suc k" by auto
  have f: "fails (transport w k)" using Suc.prems(1) km by simp
  have lt: "int k < retryAttempts opts" using km Suc.prems(3) by simp
  have ts: "now + latency w k + retry_wait opts w k + time_spent opts w (Suc k) m =
            now + time_spent opts w k m"
    using km by (simp add: time_spent_def sum.atLeast_Suc_lessThan)
  have ih: "attemptHealthCheck_cb opts w cbs startTime (Suc k)
               (now + latency w k + retry_wait opts w k) prev =
           (case attemptHealthCheck_cb opts w cbs startTime m (now + time_spent opts w k m) prev of
              (next, acts, unhandled) \<Rightarrow> (next, retry_actions opts (m - Suc k) @ acts, unhandled))"
    using Suc.hyps(1) [OF d, of "now + latency w k + retry_wait opts w k"] Suc.prems km
    by (simp only: ts) simp
  have mk: "m - k = Suc (m - Suc k)" using km by simp
  show ?case
    unfolding attempt_cb_retry [OF try_block_cb_fails [OF f] lt] ih mk
    by (cases "attemptHealthCheck_cb opts w cbs startTime m (now + time_spent opts w k m) prev")
       simp
qed

text \<open>
  With callbacks that return normally, the cycle in full is the cycle of
  \<open>attemptHealthCheck\<close>: same state, same actions.
\<close>

lemma try_block_cb_returning:
  "try_block_cb opts None startTime r t prev =
     (case try_block opts startTime r t prev of
        Inl e \<Rightarrow> (Some e, prev, [])
      | Inr (h, acts) \<Rightarrow> (None, h, acts))"
  by (cases r) (simp_all add: try_block_cb_def try_block_def Let_def call_outcome_def
       split: option.splits)

lemma cycle_cb_returning:
  assumes "\<forall>i. in_try cbs i = None"
  shows "\<exists>unhandled. attemptHealthCheck_cb opts w cbs startTime k now prev =
           (fst (attemptHealthCheck opts w startTime k now prev),
            snd (attemptHealthCheck opts w startTime k now prev), unhandled)"
  using assms
proof (induction opts w startTime k now prev rule: attemptHealthCheck.induct)
  case (1 opts w startTime k now prev)
  let ?t = "now + latency w k"
  have tb: "try_block_cb opts (in_try cbs k) startTime (transport w k) ?t prev =
     (case try_block opts startTime (transport w k) ?t prev of
        Inl e \<Rightarrow> (Some e, prev, [])
      | Inr (h, acts) \<Rightarrow> (None, h, acts))"
    using "1.prems" by (simp add: try_block_cb_returning)
  show ?case
  proof (cases "try_block opts startTime (transport w k) ?t prev")
    case (Inr r)
    obtain h acts where r: "r = (h, acts)" by (cases r)
    have "try_block_cb opts (in_try cbs k) startTime (transport w k) ?t prev = (None, h, acts)"
      using tb Inr r by simp
    from attempt_cb_settles [OF this] attempt_settles [OF Inr] r show ?thesis by simp
  next
    case (Inl e)
    have tb': "try_block_cb opts (in_try cbs k) startTime (transport w k) ?t prev = (Some e, prev, [])"
      using tb Inl by simp
    show ?thesis
    proof (cases "int k < retryAttempts opts")
      case True
      from "1.IH" [OF refl Inl True "1.prems"] obtain u where
        "attemptHealthCheck_cb opts w cbs startTime (Suc k) (?t + retry_wait opts w k) prev =
           (fst (attemptHealthCheck opts w startTime (Suc k) (?t + retry_wait opts w k) prev),
            snd (attemptHealthCheck opts w startTime (Suc k) (?t + retry_wait opts w k) prev), u)"
        by blast
      then show ?thesis
        using attempt_cb_retry [OF tb' True] attempt_caught_retry [OF Inl True]
        by simp
    next
      case False
      show ?thesis
        using attempt_cb_final [OF tb' False] attempt_caught_final [OF Inl False]
        by (simp split: prod.splits)
    qed
  qed
qed

lemma success_after_failures_cb:
  assumes "\<forall>i. k \<le> i \<and> i < n \<longrightarrow> fails (transport w i)"
    and "k \<le> n" and "int n \<le> retryAttempts opts"
    and "try_block_cb opts (in_try cbs n) startTime (transport w n)
           (now + time_spent opts w k n + latency w n) prev = (None, h, acts)"
  shows "attemptHealthCheck_cb opts w cbs startTime k now prev =
           (h, retry_actions opts (n - k) @ Get (url opts) # acts, None)"
  unfolding skip_failures_cb [OF assms(1-3)] attempt_cb_settles [OF assms(4)]
  by simp



text \<open>
  With the defaults of the hook, one refused request and a second that answers 200 in
  50 ms: the cycle lasts 5060 ms and is published \<open>unhealthy\<close>.
\<close>

lemma default_retry_cycle:
  "case checkHealth_cb default_like_options once_failing_world returning 0 initial_health of
     (next, acts, unhandled) \<Rightarrow>
       status next = unhealthy \<and> responseTime next = Some 5060
       \<and> count_of is_OnHealthy acts = 0 \<and> count_of is_OnUnhealthy acts = 1"
proof -
  let ?opts = default_like_options and ?w = once_failing_world
  have o: "enabled ?opts" "retryAttempts ?opts = 3" "responseTimeThreshold ?opts = 1000"
    "retryDelay ?opts = 5000" "onUnhealthy ?opts = Some 2" "onHealthy ?opts = Some 1"
    by (simp_all add: default_like_options_def default_options_def)
  have w: "transport ?w 0 = Rejects network_error" "transport ?w 1 = Resolves ok_response"
    "latency ?w 0 = 10" "latency ?w 1 = 50" "timer_lag ?w 0 = 0"
    by (simp_all add: once_failing_world_def)
  have f: "\<forall>i. 0 \<le> i \<and> i < 1 \<longrightarrow> fails (transport ?w i)"
    by (simp add: once_failing_world_def fails_def)
  have ts: "time_spent ?opts ?w 0 1 = 5010"
    by (simp add: time_spent_def retry_wait_def o once_failing_world_def)
  have r: "resp_status ok_response = 200" by (simp add: ok_response_def)
  let ?acts = "[SetHealth, OnUnhealthy 2 (Thrown True
                    (''Response time ('' @ Number_toString 5060
                       @ ''ms) exceeded threshold (''
                       @ Number_toString 1000 @ ''ms)'') None None)]"
  obtain "next" where
    tb: "try_block_cb ?opts None 0 (Resolves ok_response) 5060 initial_health = (None, next, ?acts)"
    and st: "status next = unhealthy"
    and rt: "responseTime next = Some 5060"
    using try_block_cb_200 [OF r, of ?opts None 0 5060 initial_health]
    by (auto simp: o call_outcome_def optional_call_def)
  have tb': "try_block_cb ?opts (in_try returning 1) 0 (transport ?w 1)
               (0 + time_spent ?opts ?w 0 1 + latency ?w 1) initial_health = (None, next, ?acts)"
    using tb by (simp add: w ts returning_def del: One_nat_def)
  have "checkHealth_cb ?opts ?w returning 0 initial_health =
          attemptHealthCheck_cb ?opts ?w returning 0 0 0 initial_health"
    by (simp add: checkHealth_cb_def o)
  also have "\<dots> = (next, retry_actions ?opts (1 - 0) @ Get (url ?opts) # ?acts, None)"
    using tb' by (intro success_after_failures_cb [OF f]) (simp_all add: o)
  finally show ?thesis using st rt by simp
qed

section \<open>Lemmas on the states of a mounted instance\<close>

lemma consistent_loading: "status h = loading \<Longrightarrow> status_consistent threshold h"
  by (simp add: status_consistent_def)


















section \<open>Claims on one cycle\<close>

text \<open>
  C1. With \<open>retryAttempts = N \<ge> 0\<close> and a transport that fails on every attempt
  (a rejection, or a status other than 200), one cycle makes exactly \<open>N + 1\<close> requests
  with \<open>N\<close> waits between them, publishes once, with status \<open>unhealthy\<close> and
  \<open>retryCount = N\<close>, and calls \<open>onUnhealthy\<close> exactly once and \<open>onHealthy\<close> never.
\<close>

theorem C1_always_failing_cycle:
  assumes "0 \<le> retryAttempts opts"
    and "\<forall>i. fails (transport w i)"
    and "enabled opts"
    and "onUnhealthy opts = Some cb"
  shows "case checkHealth opts w now prev of
           (next, acts) \<Rightarrow>
             count_of is_Get acts = nat (retryAttempts opts) + 1
             \<and> count_of is_Sleep acts = nat (retryAttempts opts)
             \<and> status next = unhealthy
             \<and> retryCount next = Some (nat (retryAttempts opts))
             \<and> count_of is_SetHealth acts = 1
             \<and> count_of is_OnUnhealthy acts = 1
             \<and> count_of is_OnHealthy acts = 0"
proof -
  have "int 0 \<le> retryAttempts opts" using assms(1) by simp
  from all_fail_cycle [OF assms(2) this, of now now prev]
  have "checkHealth opts w now prev =
          apsnd (\<lambda>acts. retry_actions opts (nat (retryAttempts opts)) @ Get (url opts) # acts)
            (catch_final opts (nat (retryAttempts opts))
               (thrown_of (transport w (nat (retryAttempts opts))))
               (now + time_spent opts w 0 (nat (retryAttempts opts))
                  + latency w (nat (retryAttempts opts))) prev)"
    using assms(3) by (simp add: checkHealth_def)
  then show ?thesis
    using assms(4) by (simp add: catch_final_def)
qed


text \<open>C1 at \<open>retryAttempts = 2\<close>: three requests, two waits, one \<open>onUnhealthy\<close> call.\<close>

theorem C1_always_failing_cycle_witness:
  "case checkHealth example_options failing_world 0 initial_health of
     (next, acts) \<Rightarrow>
       count_of is_Get acts = 3 \<and> count_of is_Sleep acts = 2 \<and> status next = unhealthy
       \<and> retryCount next = Some 2 \<and> count_of is_SetHealth acts = 1
       \<and> count_of is_OnUnhealthy acts = 1 \<and> count_of is_OnHealthy acts = 0"
  using C1_always_failing_cycle [where opts = example_options and w = failing_world and cb = 2
      and now = 0 and prev = initial_health]
  by (simp add: example_options_def failing_world_def fails_def)

text \<open>
  C2, as amended. When the first \<open>n\<close> attempts fail (\<open>n\<close> within \<open>retryAttempts\<close>),
  attempt \<open>n\<close> answers 200, the time elapsed since the start of the cycle (all
  \<open>n + 1\<close> attempts and the \<open>n\<close> waits) is within the threshold, and the \<open>onHealthy\<close>
  call returns normally, the cycle publishes once, \<open>healthy\<close>, calls \<open>onHealthy\<close> once
  and \<open>onUnhealthy\<close> never, and records \<open>retryCount = 0\<close>: the success publication
  writes the constant 0, not \<open>currentRetry\<close>.
\<close>

theorem C2_retry_then_success:
  assumes "\<forall>i. i < n \<longrightarrow> fails (transport w i)"
    and "int n \<le> retryAttempts opts"
    and "transport w n = Resolves resp" and "resp_status resp = 200"
    and "time_spent opts w 0 n + latency w n \<le> responseTimeThreshold opts"
    and "enabled opts"
    and "onHealthy opts = Some cb"
    and "in_try cbs n = None"
  shows "case checkHealth_cb opts w cbs now prev of
           (next, acts, unhandled) \<Rightarrow>
             status next = healthy
             \<and> retryCount next = Some 0
             \<and> count_of is_Get acts = n + 1
             \<and> count_of is_SetHealth acts = 1
             \<and> count_of is_OnHealthy acts = 1
             \<and> count_of is_OnUnhealthy acts = 0
             \<and> unhandled = None"
proof -
  let ?t = "now + time_spent opts w 0 n + latency w n"
  have fast: "\<not> ?t - now > responseTimeThreshold opts" using assms(5) by simp
  obtain "next" where tb: "try_block_cb opts None now (Resolves resp) ?t prev =
       (call_outcome (onHealthy opts) None, next,
        SetHealth # optional_call (onHealthy opts) (\<lambda>cb. OnHealthy cb resp))"
    and st: "status next = healthy"
    and rc: "retryCount next = Some 0"
    using try_block_cb_200 [OF assms(4), of opts None now ?t prev] fast by auto
  have tb': "try_block_cb opts (in_try cbs n) now (transport w n) ?t prev =
       (None, next, SetHealth # optional_call (onHealthy opts) (\<lambda>cb. OnHealthy cb resp))"
    using tb assms(3,8) by (simp add: call_outcome_def split: option.splits)
  have f: "\<forall>i. 0 \<le> i \<and> i < n \<longrightarrow> fails (transport w i)" using assms(1) by simp
  have "checkHealth_cb opts w cbs now prev = attemptHealthCheck_cb opts w cbs now 0 now prev"
    using assms(6) by (simp add: checkHealth_cb_def)
  also have "\<dots> = (next, retry_actions opts (n - 0) @ Get (url opts)
       # SetHealth # optional_call (onHealthy opts) (\<lambda>cb. OnHealthy cb resp), None)"
    using tb' by (intro success_after_failures_cb [OF f]) (simp_all add: assms(2))
  finally show ?thesis
    using st rc assms(7) by simp
qed

text \<open>C2 as amended, at two failures followed by a 200 after 270 ms in all.\<close>

theorem C2_retry_then_success_witness:
  "case checkHealth_cb example_options flaky_world returning 0 initial_health of
     (next, acts, unhandled) \<Rightarrow>
       status next = healthy \<and> retryCount next = Some 0 \<and> count_of is_Get acts = 2 + 1
       \<and> count_of is_SetHealth acts = 1 \<and> count_of is_OnHealthy acts = 1
       \<and> count_of is_OnUnhealthy acts = 0 \<and> unhandled = None"
  using C2_retry_then_success [where n = 2 and w = flaky_world and opts = example_options
      and resp = ok_response and cb = 1 and cbs = returning and now = 0 and prev = initial_health]
  by (simp add: example_options_def flaky_world_def fails_def ok_response_def
        time_spent_def retry_wait_def numeral_2_eq_2 returning_def)

text \<open>
  C2 as stated fails in three ways. After two failed attempts and a success within
  the threshold, the recorded \<open>retryCount\<close> is 0, not 2. With the defaults of the hook,
  one failed attempt and a second attempt that answers 200 in 50 ms make a cycle of
  5060 ms against a threshold of 1000 ms: the cycle publishes \<open>unhealthy\<close> and calls
  \<open>onUnhealthy\<close>, not \<open>onHealthy\<close>. And when \<open>onHealthy\<close> throws, the \<open>catch\<close> block
  publishes \<open>unhealthy\<close> and calls \<open>onUnhealthy\<close>.
\<close>

theorem C2_as_stated_counterexample:
  "(fails (transport flaky_world 0) \<and> fails (transport flaky_world 1)
    \<and> transport flaky_world 2 = Resolves ok_response \<and> resp_status ok_response = 200
    \<and> retryAttempts example_options = 2
    \<and> (case checkHealth_cb example_options flaky_world returning 0 initial_health of
         (next, acts, unhandled) \<Rightarrow>
           status next = healthy \<and> retryCount next = Some 0 \<and> retryCount next \<noteq> Some 2))
   \<and> (fails (transport once_failing_world 0)
      \<and> transport once_failing_world 1 = Resolves ok_response
      \<and> latency once_failing_world 1 = 50
      \<and> responseTimeThreshold default_like_options = 1000
      \<and> retryAttempts default_like_options = 3
      \<and> (case checkHealth_cb default_like_options once_failing_world returning 0 initial_health of
           (next, acts, unhandled) \<Rightarrow>
             status next = unhealthy \<and> responseTime next = Some 5060
             \<and> count_of is_OnHealthy acts = 0 \<and> count_of is_OnUnhealthy acts = 1))
   \<and> (in_try (throwing_at 2) 2 = Some boom
      \<and> (case checkHealth_cb example_options flaky_world (throwing_at 2) 0 initial_health of
           (next, acts, unhandled) \<Rightarrow>
             status next = unhealthy \<and> error next = Some ''callback failed''
             \<and> count_of is_OnHealthy acts = 1 \<and> count_of is_OnUnhealthy acts = 1))"
proof -
  have a: "fails (transport flaky_world 0) \<and> fails (transport flaky_world 1)
    \<and> transport flaky_world 2 = Resolves ok_response \<and> resp_status ok_response = 200
    \<and> retryAttempts example_options = 2
    \<and> (case checkHealth_cb example_options flaky_world returning 0 initial_health of
         (next, acts, unhandled) \<Rightarrow>
           status next = healthy \<and> retryCount next = Some 0 \<and> retryCount next \<noteq> Some 2)"
    by code_simp
  have b: "fails (transport once_failing_world 0)
      \<and> transport once_failing_world 1 = Resolves ok_response
      \<and> latency once_failing_world 1 = 50
      \<and> responseTimeThreshold default_like_options = 1000
      \<and> retryAttempts default_like_options = 3"
    by code_simp
  have c: "in_try (throwing_at 2) 2 = Some boom
      \<and> (case checkHealth_cb example_options flaky_world (throwing_at 2) 0 initial_health of
           (next, acts, unhandled) \<Rightarrow>
             status next = unhealthy \<and> error next = Some ''callback failed''
             \<and> count_of is_OnHealthy acts = 1 \<and> count_of is_OnUnhealthy acts = 1)"
    by code_simp
  from a b default_retry_cycle c show ?thesis by blast
qed

text \<open>
  C3, as amended. A 200 response is classified by the time elapsed since the start of
  the cycle. Within the threshold the cycle publishes \<open>healthy\<close> and calls \<open>onHealthy\<close>.
  Beyond the threshold it publishes \<open>unhealthy\<close> and, when \<open>onUnhealthy\<close> is supplied,
  hands it an Error whose message contains the elapsed time and the threshold. The
  published \<open>error\<close> field is undefined in both cases. When the callback called returns
  normally, the cycle ends with this request: one \<open>Get\<close>, no wait, no retry.
\<close>

theorem C3_ok_response_classified_by_latency:
  assumes "transport w k = Resolves resp" and "resp_status resp = 200"
    and "in_try cbs k = None"
  shows "case attemptHealthCheck_cb opts w cbs startTime k now prev of
           (next, acts, unhandled) \<Rightarrow>
             error next = None
             \<and> (now + latency w k - startTime \<le> responseTimeThreshold opts \<longrightarrow>
                  status next = healthy
                  \<and> acts = Get (url opts) # SetHealth
                       # optional_call (onHealthy opts) (\<lambda>cb. OnHealthy cb resp))
             \<and> (now + latency w k - startTime > responseTimeThreshold opts \<longrightarrow>
                  status next = unhealthy
                  \<and> acts = Get (url opts) # SetHealth
                       # optional_call (onUnhealthy opts)
                           (\<lambda>cb. OnUnhealthy cb (Thrown True
                              (''Response time ('' @ Number_toString (now + latency w k - startTime)
                                 @ ''ms) exceeded threshold (''
                                 @ Number_toString (responseTimeThreshold opts) @ ''ms)'')
                              None None)))
             \<and> count_of is_Get acts = 1 \<and> count_of is_Sleep acts = 0
             \<and> unhandled = None"
proof -
  let ?t = "now + latency w k"
  let ?acts = "SetHealth #
         (if ?t - startTime > responseTimeThreshold opts
          then optional_call (onUnhealthy opts)
                 (\<lambda>cb. OnUnhealthy cb (Thrown True
                    (''Response time ('' @ Number_toString (?t - startTime)
                       @ ''ms) exceeded threshold (''
                       @ Number_toString (responseTimeThreshold opts) @ ''ms)'') None None))
          else optional_call (onHealthy opts) (\<lambda>cb. OnHealthy cb resp))"
  obtain "next" where tb: "try_block_cb opts None startTime (Resolves resp) ?t prev =
       (if ?t - startTime > responseTimeThreshold opts
        then call_outcome (onUnhealthy opts) None
        else call_outcome (onHealthy opts) None, next, ?acts)"
    and st: "status next = (if ?t - startTime > responseTimeThreshold opts then unhealthy else healthy)"
    and er: "error next = None"
    using try_block_cb_200 [OF assms(2), of opts None startTime ?t prev] by blast
  have "try_block_cb opts (in_try cbs k) startTime (transport w k) ?t prev = (None, next, ?acts)"
    using tb assms(1,3) by (simp add: call_outcome_def split: option.splits)
  from attempt_cb_settles [OF this] show ?thesis
    using st er by (auto split: option.splits)
qed

text \<open>C3 as amended, at 50 ms and at 1200 ms against a threshold of 500 ms.\<close>

theorem C3_ok_response_classified_by_latency_witness:
  "(case attemptHealthCheck_cb example_options prompt_world returning 0 0 0 initial_health of
      (next, acts, unhandled) \<Rightarrow>
        status next = healthy \<and> error next = None
        \<and> acts = [Get ''https://x/health'', SetHealth, OnHealthy 1 ok_response])
   \<and> (case attemptHealthCheck_cb example_options slow_world returning 0 0 0 initial_health of
        (next, acts, unhandled) \<Rightarrow>
          status next = unhealthy \<and> error next = None
          \<and> acts = [Get ''https://x/health'', SetHealth,
                OnUnhealthy 2
                  (Thrown True ''Response time (1200ms) exceeded threshold (500ms)'' None None)])"
proof -
  have n1: "Number_toString 1200 = ''1200''" and n2: "Number_toString 500 = ''500''"
    by code_simp+
  show ?thesis
    using C3_ok_response_classified_by_latency
            [where w = prompt_world and k = 0 and resp = ok_response and opts = example_options
               and cbs = returning and startTime = 0 and now = 0 and prev = initial_health]
          C3_ok_response_classified_by_latency
            [where w = slow_world and k = 0 and resp = ok_response and opts = example_options
               and cbs = returning and startTime = 0 and now = 0 and prev = initial_health]
    by (simp add: example_options_def prompt_world_def slow_world_def ok_response_def
          optional_call_def returning_def n1 n2 split: prod.splits)
qed

text \<open>
  C3 as stated fails in two ways. Without an \<open>onUnhealthy\<close> callback a 200 after
  1200 ms is published \<open>unhealthy\<close> with \<open>error\<close> and \<open>rawError\<close> undefined and nothing
  else happens: no error message exists anywhere. And when the \<open>onUnhealthy\<close> call
  for the slow response throws, the \<open>catch\<close> block waits and sends a second request.
\<close>

theorem C3_as_stated_counterexample:
  "(transport slow_world 0 = Resolves ok_response \<and> resp_status ok_response = 200
    \<and> onUnhealthy silent_options = None
    \<and> (case attemptHealthCheck_cb silent_options slow_world returning 0 0 0 initial_health of
         (next, acts, unhandled) \<Rightarrow>
           status next = unhealthy \<and> responseTime next = Some 1200
           \<and> error next = None \<and> rawError next = None
           \<and> acts = [Get ''https://x/health'', SetHealth]))
   \<and> (in_try (throwing_at 0) 0 = Some boom
      \<and> (case attemptHealthCheck_cb example_options slow_world (throwing_at 0) 0 0 0
                initial_health of
           (next, acts, unhandled) \<Rightarrow>
             count_of is_Get acts = 2 \<and> count_of is_Sleep acts = 1
             \<and> count_of is_SetHealth acts = 2 \<and> count_of is_OnUnhealthy acts = 2))"
  by code_simp

text \<open>
  C4. The clock is read once, before the first attempt. When attempt \<open>k\<close> answers 200
  after \<open>k\<close> failed attempts, the recorded \<open>responseTime\<close>, which is also the value
  compared with the threshold, is the sum of the durations of all \<open>k + 1\<close> attempts and
  of the \<open>k\<close> waits between them.
\<close>

theorem C4_elapsed_time_spans_cycle:
  assumes "\<forall>i. i < k \<longrightarrow> fails (transport w i)"
    and "int k \<le> retryAttempts opts"
    and "transport w k = Resolves resp" and "resp_status resp = 200"
    and "enabled opts"
  shows "case checkHealth opts w now prev of
           (next, acts) \<Rightarrow>
             responseTime next =
               Some ((\<Sum>i = 0..<k. latency w i + (max 0 (retryDelay opts) + timer_lag w i))
                     + latency w k)
             \<and> status next =
                 (if (\<Sum>i = 0..<k. latency w i + (max 0 (retryDelay opts) + timer_lag w i))
                       + latency w k > responseTimeThreshold opts
                  then unhealthy else healthy)"
proof -
  let ?t = "now + time_spent opts w 0 k + latency w k"
  obtain "next" acts where tb: "try_block opts now (Resolves resp) ?t prev = Inr (next, acts)"
    and st: "status next = (if ?t - now > responseTimeThreshold opts then unhealthy else healthy)"
    and rt: "responseTime next = Some (?t - now)"
    using try_block_200 [OF assms(4), of opts now ?t prev] by blast
  have f: "\<forall>i. 0 \<le> i \<and> i < k \<longrightarrow> fails (transport w i)" using assms(1) by simp
  have "checkHealth opts w now prev = attemptHealthCheck opts w now 0 now prev"
    using assms(5) by (simp add: checkHealth_def)
  also have "\<dots> = apsnd (\<lambda>a. retry_actions opts (k - 0) @ Get (url opts) # a) (next, acts)"
    using tb by (intro success_after_failures [OF f]) (simp_all add: assms(2,3))
  finally show ?thesis
    using st rt by (simp add: time_spent_def retry_wait_def)
qed

text \<open>
  C4 at two failures of 10 ms, two waits of 100 ms and a final attempt of 50 ms: the
  final attempt alone is within the threshold of 100 ms, the cycle's 270 ms are not.
\<close>

theorem C4_elapsed_time_spans_cycle_witness:
  "latency flaky_world 2 = 50 \<and> responseTimeThreshold tight_options = 100
   \<and> (case checkHealth tight_options flaky_world 7 initial_health of
        (next, acts) \<Rightarrow> responseTime next = Some 270 \<and> status next = unhealthy)"
  using C4_elapsed_time_spans_cycle [where k = 2 and w = flaky_world and opts = tight_options
      and resp = ok_response and now = 7 and prev = initial_health]
  by (simp add: tight_options_def example_options_def flaky_world_def fails_def ok_response_def
        numeral_2_eq_2)






text \<open>
  C10. Publications merge into the previous state. No publication of a cycle touches
  the fields beyond those of \<open>IHealthStatus\<close>; the publication after exhausted retries
  leaves \<open>responseTime\<close> as it was; the reset publication leaves \<open>responseTime\<close> and
  \<open>retryCount\<close> as they were.
\<close>

theorem C10_publications_merge:
  "IHealthStatus.more (fst (attemptHealthCheck opts w startTime k now prev)) =
     IHealthStatus.more prev
   \<and> ((\<forall>i. fails (transport w i)) \<longrightarrow>
        responseTime (fst (attemptHealthCheck opts w startTime k now prev)) = responseTime prev)
   \<and> responseTime (reset_health prev) = responseTime prev
   \<and> retryCount (reset_health prev) = retryCount prev
   \<and> IHealthStatus.more (reset_health prev) = IHealthStatus.more prev"
  by (simp add: cycle_more failing_cycle_responseTime reset_health_def)

text \<open>
  C10 at a healthy cycle with \<open>responseTime = 50\<close> followed by a cycle that fails
  throughout: the state it publishes is \<open>unhealthy\<close> and still carries 50.
\<close>

theorem C10_publications_merge_witness:
  "responseTime (fst (checkHealth example_options prompt_world 0 initial_component_health))
     = Some 50
   \<and> status (fst (attemptHealthCheck example_options failing_world 10000 0 10000
        (fst (checkHealth example_options prompt_world 0 initial_component_health)))) = unhealthy
   \<and> responseTime (fst (attemptHealthCheck example_options failing_world 10000 0 10000
        (fst (checkHealth example_options prompt_world 0 initial_component_health)))) = Some 50"
proof -
  have a: "responseTime (fst (checkHealth example_options prompt_world 0 initial_component_health))
             = Some 50"
    by code_simp
  have b: "status (fst (attemptHealthCheck example_options failing_world 10000 0 10000
        (fst (checkHealth example_options prompt_world 0 initial_component_health)))) = unhealthy"
    by code_simp
  have f: "\<forall>i. fails (transport failing_world i)"
    by (simp add: failing_world_def fails_def)
  show ?thesis
    using C10_publications_merge
      [where opts = example_options and w = failing_world and startTime = 10000 and k = 0
         and now = 10000
         and prev = "fst (checkHealth example_options prompt_world 0 initial_component_health)"]
      a b f
    by simp
qed

section \<open>Claims on the effects\<close>

text \<open>
  C7. The hook is mounted enabled and its first request is pending when a render
  disables it. The cleanup ends the subscription and the disabled branch publishes
  \<open>loading\<close>; the cycle stays in flight. When its request then resolves with 200, the
  abandoned cycle publishes \<open>healthy\<close> and calls \<open>onHealthy\<close>, although the monitor is
  disabled. Likewise, after a render that disables and a render that enables again with
  another URL, the old cycle retries and then overwrites the state with the result
  for the old URL while the new cycle is still waiting.
\<close>

theorem C7_abandoned_cycle_publishes:
  "(case run False [Render disabled_options 10] (useHealthCheck_mount example_options 0) of
      None \<Rightarrow> False
    | Some m \<Rightarrow> subscription m = None \<and> status (health m) = loading
               \<and> lastChecked (health m) = None
               \<and> map cycle_phase (inflight m) = [AwaitingResponse])
   \<and> (case run False [Render disabled_options 10, Settle 0 (Resolves ok_response) 50]
              (useHealthCheck_mount example_options 0) of
        None \<Rightarrow> False
      | Some m \<Rightarrow> \<not> enabled (props m) \<and> subscription m = None
                 \<and> status (health m) = healthy \<and> lastChecked (health m) = Some 50
                 \<and> actions m = [Get ''https://x/health'', SetHealth, SetHealth,
                      OnHealthy 1 ok_response])
   \<and> (case run False [Render disabled_options 10, Render moved_options 20,
                      Settle 0 (Rejects network_error) 30, TimerFires 0,
                      Settle 0 (Resolves ok_response) 200]
              (useHealthCheck_mount example_options 0) of
        None \<Rightarrow> False
      | Some m \<Rightarrow> url (props m) = ''https://y/health''
                 \<and> map cycle_phase (inflight m) = [Finished, AwaitingResponse]
                 \<and> status (health m) = healthy
                 \<and> map_option (req_url \<circ> request) (requestDetails (health m))
                     = Some ''https://x/health'')"
  by code_simp

text \<open>
  C8, as amended. In the component, a render with a different \<open>url\<close> resets the state
  whether or not \<open>enabled\<close> changed too: \<open>status\<close> is \<open>loading\<close>, and \<open>lastChecked\<close>,
  \<open>error\<close>, \<open>rawError\<close> and \<open>requestDetails\<close> are cleared. \<open>responseTime\<close> and
  \<open>retryCount\<close> keep their values. In the hook the same reset happens when the
  render leaves the monitor disabled.
\<close>

theorem C8_url_change_resets:
  assumes "url opts \<noteq> url (props m)"
  shows "health (HealthCheck_render opts now m) = reset_health (health m)
         \<and> status (health (HealthCheck_render opts now m)) = loading
         \<and> lastChecked (health (HealthCheck_render opts now m)) = None
         \<and> error (health (HealthCheck_render opts now m)) = None
         \<and> rawError (health (HealthCheck_render opts now m)) = None
         \<and> requestDetails (health (HealthCheck_render opts now m)) = None
         \<and> responseTime (health (HealthCheck_render opts now m)) = responseTime (health m)
         \<and> retryCount (health (HealthCheck_render opts now m)) = retryCount (health m)
         \<and> (\<not> enabled opts \<longrightarrow>
              health (useHealthCheck_render opts now m) = reset_health (health m))"
proof -
  have ch: "schedule_changed (props m) opts"
    using assms by (auto simp: schedule_changed_def checkHealth_changed_def)
  have "health (HealthCheck_render opts now m) = reset_health (health m)"
    using assms ch
    by (simp add: HealthCheck_render_def Let_def url_effect_def cleanup_def schedule_effect_def
          health_runHealthCheck reset_health_idem)
  moreover have "\<not> enabled opts \<Longrightarrow>
      health (useHealthCheck_render opts now m) = reset_health (health m)"
    using ch by (simp add: useHealthCheck_render_def cleanup_def schedule_effect_def)
  ultimately show ?thesis by (simp add: reset_health_def)
qed

text \<open>
  C8 as amended, at a component and a hook that have published \<open>unhealthy\<close> with an
  error, \<open>responseTime = 50\<close> and \<open>retryCount = 2\<close>.
\<close>

theorem C8_url_change_resets_witness:
  "status (health component_settled) = unhealthy
   \<and> error (health component_settled) = Some ''Network Error''
   \<and> responseTime (health component_settled) = Some 50
   \<and> retryCount (health component_settled) = Some 2
   \<and> status (health (HealthCheck_render moved_options 11000 component_settled)) = loading
   \<and> error (health (HealthCheck_render moved_options 11000 component_settled)) = None
   \<and> requestDetails (health (HealthCheck_render moved_options 11000 component_settled)) = None
   \<and> responseTime (health (HealthCheck_render moved_options 11000 component_settled)) = Some 50
   \<and> retryCount (health (HealthCheck_render moved_options 11000 component_settled)) = Some 2
   \<and> status (health hook_settled) = unhealthy
   \<and> status (health (useHealthCheck_render moved_disabled_options 11000 hook_settled)) = loading
   \<and> error (health (useHealthCheck_render moved_disabled_options 11000 hook_settled)) = None"
proof -
  have u1: "url moved_options \<noteq> url (props component_settled)" by code_simp
  have u2: "url moved_disabled_options \<noteq> url (props hook_settled)" by code_simp
  have d: "\<not> enabled moved_disabled_options" by code_simp
  have b: "status (health component_settled) = unhealthy"
    "error (health component_settled) = Some ''Network Error''"
    "responseTime (health component_settled) = Some 50"
    "retryCount (health component_settled) = Some 2"
    "status (health hook_settled) = unhealthy"
    by code_simp+
  from C8_url_change_resets [OF u1, where now = 11000]
       C8_url_change_resets [OF u2, where now = 11000] d b
  show ?thesis by (simp add: reset_health_def)
qed

text \<open>
  C8 as stated fails in two ways. In the component, after a healthy cycle (50 ms) and
  a cycle that used both retries, a change of URL resets the status to \<open>loading\<close> but
  leaves \<open>responseTime = 50\<close> and \<open>retryCount = 2\<close> in the state. In the hook, the same
  change of URL while enabled resets nothing: the state stays \<open>unhealthy\<close> with the
  error and the request details of the old URL.
\<close>

theorem C8_as_stated_counterexample:
  "(case run True two_cycle_history (HealthCheck_mount example_options 0) of
      None \<Rightarrow> False
    | Some m \<Rightarrow> status (health m) = unhealthy \<and> responseTime (health m) = Some 50
               \<and> retryCount (health m) = Some 2)
   \<and> url moved_options \<noteq> url example_options
   \<and> (case run True (two_cycle_history @ [Render moved_options 11000])
              (HealthCheck_mount example_options 0) of
        None \<Rightarrow> False
      | Some m \<Rightarrow> status (health m) = loading \<and> responseTime (health m) = Some 50
                 \<and> retryCount (health m) = Some 2
                 \<and> responseTime (health m) \<noteq> None \<and> retryCount (health m) \<noteq> None)
   \<and> enabled moved_options
   \<and> (case run False (two_cycle_history @ [Render moved_options 11000])
              (useHealthCheck_mount example_options 0) of
        None \<Rightarrow> False
      | Some m \<Rightarrow> url (props m) = ''https://y/health''
                 \<and> status (health m) = unhealthy
                 \<and> error (health m) = Some ''Network Error''
                 \<and> requestDetails (health m) \<noteq> None
                 \<and> responseTime (health m) = Some 50 \<and> retryCount (health m) = Some 2)"
  by code_simp

text \<open>
  C9, as amended. Nothing validates the configuration. Whether cycles run depends on
  \<open>enabled\<close> alone: mounting, or rendering with changed dependencies, subscribes and
  starts a cycle at once when \<open>enabled\<close> holds, whatever the URL, \<open>retryAttempts\<close>,
  \<open>interval\<close> and threshold are, and does neither when it does not.
\<close>

theorem C9_only_enabled_gates_cycles:
  "(enabled opts \<longrightarrow>
      subscription (useHealthCheck_mount opts now) = Some opts
      \<and> inflight (useHealthCheck_mount opts now) = [Cycle opts now 0 AwaitingResponse]
      \<and> actions (useHealthCheck_mount opts now) = [Get (url opts)])
   \<and> (\<not> enabled opts \<longrightarrow>
        subscription (useHealthCheck_mount opts now) = None
        \<and> inflight (useHealthCheck_mount opts now) = [])
   \<and> (enabled opts \<and> schedule_changed (props m) opts \<longrightarrow>
        subscription (useHealthCheck_render opts now m) = Some opts
        \<and> inflight (useHealthCheck_render opts now m) =
            inflight m @ [Cycle opts now 0 AwaitingResponse])
   \<and> (\<not> enabled opts \<and> schedule_changed (props m) opts \<longrightarrow>
        subscription (useHealthCheck_render opts now m) = None
        \<and> inflight (useHealthCheck_render opts now m) = inflight m)"
  by (simp add: useHealthCheck_mount_def useHealthCheck_render_def schedule_effect_def
        runHealthCheck_def cleanup_def)

text \<open>C9 as amended, at the example configuration, enabled and disabled.\<close>

theorem C9_only_enabled_gates_cycles_witness:
  "subscription (useHealthCheck_mount example_options 0) = Some example_options
   \<and> inflight (useHealthCheck_mount example_options 0) =
       [Cycle example_options 0 0 AwaitingResponse]
   \<and> subscription (useHealthCheck_mount disabled_options 0) = None
   \<and> inflight (useHealthCheck_mount disabled_options 0) = []"
proof -
  have e: "enabled example_options" "\<not> enabled disabled_options"
    by (simp_all add: example_options_def disabled_options_def)
  from C9_only_enabled_gates_cycles
         [where opts = example_options and now = 0 and m = "useHealthCheck_mount example_options 0"]
       C9_only_enabled_gates_cycles
         [where opts = disabled_options and now = 0 and m = "useHealthCheck_mount example_options 0"]
       e
  show ?thesis by blast
qed

text \<open>
  C9 as stated fails: with an empty URL, \<open>retryAttempts = -1\<close>, \<open>interval = 0\<close> and a
  threshold of 0, mounting subscribes and sends a request; the cycle completes after
  one attempt, and the interval timer starts the next one.
\<close>

theorem C9_invalid_configuration_counterexample:
  "url invalid_options = [] \<and> retryAttempts invalid_options < 0
   \<and> interval invalid_options \<le> 0 \<and> responseTimeThreshold invalid_options \<le> 0
   \<and> subscription (useHealthCheck_mount invalid_options 0) = Some invalid_options
   \<and> inflight (useHealthCheck_mount invalid_options 0) =
       [Cycle invalid_options 0 0 AwaitingResponse]
   \<and> actions (useHealthCheck_mount invalid_options 0) = [Get []]
   \<and> (case run False [Settle 0 (Rejects network_error) 10, Tick 20]
              (useHealthCheck_mount invalid_options 0) of
        None \<Rightarrow> False
      | Some m \<Rightarrow> status (health m) = unhealthy \<and> retryCount (health m) = Some 0
                 \<and> map cycle_phase (inflight m) = [Finished, AwaitingResponse])"
  by code_simp


end
